theory Spec2Isabelle
  imports
    Complex_Main
    "HOL-Library.Sublist"
    "HOL-Library.Char_ord"
    "HOL-Library.List_Lexorder"
    "HOL-Library.Multiset"
begin

section \<open>CryptoBoard backend: the endpoints of main.py\<close>

text \<open>
  The program loads two tables once (\<^verbatim>\<open>articles_df\<close> and \<^verbatim>\<open>word_counts_df\<close>) and
  answers seven read-only queries over them. Every endpoint function is modelled as a
  function of the table it reads and of its query parameters; its result is either the
  content of the JSON response or the Python exception that leaves the function.

  Strings are \<^typ>\<open>string\<close>; one \<^typ>\<open>char\<close> stands for one code point below 256.
\<close>

subsection \<open>Data model\<close>

datatype error = AttributeError | TypeError | ValueError | ReError

text \<open>
  A float is either NaN or finite; a finite float is represented by the rational number
  it approximates (no claim depends on rounding).
\<close>

datatype pyfloat = NaN | Finite rat

text \<open>The Python values that are handed to \<^verbatim>\<open>JSONResponse\<close>.\<close>

datatype pyval =
    PStr string
  | PInt int
  | PFloat pyfloat
  | PList "pyval list"
  | PDict "(string \<times> pyval) list"

text \<open>
  A row of \<^verbatim>\<open>articles_df\<close>. A text cell of a table read from CSV holds a string, or
  is missing (pandas stores NaN there): \<open>None\<close> is the missing cell. A column in which
  some cell holds a string, and every column of the empty table, has the dtype
  \<^verbatim>\<open>object\<close>; a column of a non-empty table in which every cell is missing is read as
  \<^verbatim>\<open>float64\<close>.
\<close>

record article =
  title :: "string option"
  link :: "string option"
  content :: "string option"

text \<open>
  A row of \<^verbatim>\<open>word_counts_df\<close>. The \<^verbatim>\<open>count\<close> column is an \<^verbatim>\<open>int64\<close> column; its cells
  are integers of that range.
\<close>

record word_count =
  word :: string
  count' :: int

subsection \<open>Building the response\<close>

text \<open>\<^verbatim>\<open>to_dict(orient='records')\<close> turns a missing cell into the float NaN.\<close>

definition cell_value :: "string option \<Rightarrow> pyval" where
  "cell_value c = (case c of None \<Rightarrow> PFloat NaN | Some s \<Rightarrow> PStr s)"

definition title_link :: "article \<Rightarrow> pyval" where
  "title_link a = PDict [(''title'', cell_value (title a)), (''link'', cell_value (link a))]"

text \<open>
  \<^verbatim>\<open>JSONResponse\<close> renders its content when it is constructed, with
  \<^verbatim>\<open>json.dumps(..., allow_nan=False)\<close>: a NaN anywhere in the content raises
  \<^verbatim>\<open>ValueError\<close>.
\<close>

fun json_compliant :: "pyval \<Rightarrow> bool" where
  "json_compliant (PStr s) = True"
| "json_compliant (PInt i) = True"
| "json_compliant (PFloat f) = (f \<noteq> NaN)"
| "json_compliant (PList vs) = list_all json_compliant vs"
| "json_compliant (PDict kvs) = list_all json_compliant (map snd kvs)"

definition JSONResponse :: "pyval \<Rightarrow> error + pyval" where
  "JSONResponse v = (if json_compliant v then Inr v else Inl ValueError)"

subsection \<open>Endpoint 1: newsfeed\<close>

text \<open>
  Python's slice \<^verbatim>\<open>[start:stop]\<close> on a sequence of length \<open>n\<close>: a negative index counts
  from the end, and every index is clipped to \<open>0..n\<close>; nothing is raised out of range.
\<close>

definition slice_index :: "nat \<Rightarrow> int \<Rightarrow> nat" where
  "slice_index n i = (if i < 0 then nat (max (i + int n) 0) else min (nat i) n)"

definition iloc :: "'a list \<Rightarrow> int \<Rightarrow> int \<Rightarrow> 'a list" where
  "iloc xs start stop =
     (let lo = slice_index (length xs) start;
          hi = slice_index (length xs) stop
      in take (hi - lo) (drop lo xs))"

definition get_newsfeed :: "article list \<Rightarrow> int \<Rightarrow> int \<Rightarrow> error + pyval" where
  "get_newsfeed articles_df skip limit =
     JSONResponse (PList (map title_link (iloc articles_df skip (skip + limit))))"

subsection \<open>Endpoints 2 and 4: word cloud and word trend\<close>

text \<open>Arithmetic on an \<^verbatim>\<open>int64\<close> column wraps around.\<close>

definition int64 :: "int \<Rightarrow> int" where
  "int64 x = (x + 2 ^ 63) mod 2 ^ 64 - 2 ^ 63"

text \<open>
  \<^verbatim>\<open>groupby('word').sum()\<close>: one row per distinct word, in sorted key order, holding
  the \<^verbatim>\<open>int64\<close> sum of the \<^verbatim>\<open>count\<close> column over the group. The word becomes the index
  of the grouped frame (the first component here), \<^verbatim>\<open>count\<close> stays its only column.
\<close>

definition groupby_word_sum :: "word_count list \<Rightarrow> (string \<times> int) list" where
  "groupby_word_sum df =
     map (\<lambda>w. (w, int64 (sum_list (map count' (filter (\<lambda>r. word r = w) df)))))
       (sort (remdups (map word df)))"

text \<open>
  \<^verbatim>\<open>sort_values(..., ascending=False)\<close>. pandas leaves the order of rows with equal keys
  to the sorting algorithm; the model keeps them in their previous order. In both
  endpoints that sort, rows with equal keys give equal records, so the responses do not
  depend on that order (lemmas \<open>word_cloud_any_order\<close> and \<open>word_trend_any_order\<close>).
\<close>

definition sort_values_desc :: "('a \<Rightarrow> int) \<Rightarrow> 'a list \<Rightarrow> 'a list" where
  "sort_values_desc k df = sort_key (\<lambda>r. - k r) df"

definition get_word_counts :: "word_count list \<Rightarrow> (string \<times> int) list" where
  "get_word_counts word_counts_df =
     take 10 (sort_values_desc snd (groupby_word_sum word_counts_df))"

text \<open>
  \<^verbatim>\<open>to_dict(orient='records')\<close> emits the columns of each row and leaves the index
  out: a row of the grouped frame becomes a record with the single key \<^verbatim>\<open>count\<close>.
\<close>

definition grouped_record :: "string \<times> int \<Rightarrow> pyval" where
  "grouped_record g = PDict [(''count'', PInt (snd g))]"

definition get_word_cloud :: "word_count list \<Rightarrow> error + pyval" where
  "get_word_cloud word_counts_df =
     JSONResponse (PList (map grouped_record (get_word_counts word_counts_df)))"

definition word_count_record :: "word_count \<Rightarrow> pyval" where
  "word_count_record r = PDict [(''word'', PStr (word r)), (''count'', PInt (count' r))]"

definition get_word_trend :: "word_count list \<Rightarrow> string \<Rightarrow> error + pyval" where
  "get_word_trend word_counts_df w =
     (let word_data = filter (\<lambda>r. word r = w) word_counts_df;
          word_data = sort_values_desc count' word_data
      in JSONResponse (PList (map word_count_record word_data)))"

subsection \<open>Endpoint 3: article counter\<close>

text \<open>The characters \<^verbatim>\<open>str.split()\<close> treats as whitespace, among the code points below 256.\<close>

definition is_space :: "char \<Rightarrow> bool" where
  "is_space c = (of_char c \<in> set [9, 10, 11, 12, 13, 28, 29, 30, 31, 32, 133, 160 :: nat])"

fun split_acc :: "string \<Rightarrow> string \<Rightarrow> string list" where
  "split_acc tok [] = (if tok = [] then [] else [tok])"
| "split_acc tok (c # cs) =
     (if is_space c then (if tok = [] then split_acc [] cs else tok # split_acc [] cs)
      else split_acc (tok @ [c]) cs)"

definition str_split :: "string \<Rightarrow> string list" where
  "str_split s = split_acc [] s"

text \<open>\<^verbatim>\<open>str.lower()\<close> on code points below 256.\<close>

definition lower_char :: "char \<Rightarrow> char" where
  "lower_char c =
     (let n = (of_char c :: nat)
      in if (65 \<le> n \<and> n \<le> 90) \<or> (192 \<le> n \<and> n \<le> 222 \<and> n \<noteq> 215)
         then char_of (n + 32) else c)"

definition str_lower :: "string \<Rightarrow> string" where
  "str_lower s = map lower_char s"

text \<open>
  The two kinds of mapping object the endpoint builds. Both keep their items in insertion
  order; only a \<^verbatim>\<open>Counter\<close> has the method \<^verbatim>\<open>most_common\<close>.
\<close>

datatype pymapping = CounterObj "(string \<times> nat) list" | DictObj "(string \<times> nat) list"

fun counter_add :: "(string \<times> nat) list \<Rightarrow> string \<Rightarrow> (string \<times> nat) list" where
  "counter_add [] w = [(w, 1)]"
| "counter_add ((k, n) # kvs) w =
     (if k = w then (k, Suc n) # kvs else (k, n) # counter_add kvs w)"

definition Counter :: "string list \<Rightarrow> pymapping" where
  "Counter ws = CounterObj (foldl counter_add [] ws)"

fun items :: "pymapping \<Rightarrow> (string \<times> nat) list" where
  "items (CounterObj kvs) = kvs"
| "items (DictObj kvs) = kvs"

text \<open>
  \<^verbatim>\<open>most_common(n)\<close>: the \<open>n\<close> items of highest count, equal counts in insertion
  order. Looking the attribute up on a plain \<^verbatim>\<open>dict\<close> raises \<^verbatim>\<open>AttributeError\<close>.
\<close>

fun most_common :: "pymapping \<Rightarrow> nat \<Rightarrow> error + (string \<times> nat) list" where
  "most_common (CounterObj kvs) n = Inr (take n (sort_key (\<lambda>kv. - int (snd kv)) kvs))"
| "most_common (DictObj kvs) n = Inl AttributeError"

definition stop_words :: "string list" where
  "stop_words = [''the'', ''a'', ''an'', ''and'', ''or'', ''to'', ''in'', ''of'', ''for'',
     ''with'', ''on'', ''at'']"

text \<open>
  The body of the loop over the rows. A missing \<^verbatim>\<open>content\<close> is a float, which has no
  \<^verbatim>\<open>split\<close>. The comprehension \<^verbatim>\<open>{k: v for ...}\<close> builds a plain \<^verbatim>\<open>dict\<close>.
\<close>

definition article_top_words :: "article \<Rightarrow> error + pyval" where
  "article_top_words row =
     (case content row of
        None \<Rightarrow> Inl AttributeError
      | Some article \<Rightarrow>
          (let word_list = str_split article;
               word_count = Counter word_list;
               filtered_words =
                 DictObj (filter (\<lambda>kv. str_lower (fst kv) \<notin> set stop_words) (items word_count))
           in case most_common filtered_words 5 of
                Inl e \<Rightarrow> Inl e
              | Inr top_words \<Rightarrow>
                  Inr (PDict [(''title'', cell_value (title row)),
                    (''top_words'', PDict (map (\<lambda>kv. (fst kv, PInt (int (snd kv)))) top_words))])))"

fun article_counter_loop :: "article list \<Rightarrow> pyval list \<Rightarrow> error + pyval list" where
  "article_counter_loop [] article_words = Inr article_words"
| "article_counter_loop (row # rows) article_words =
     (case article_top_words row of
        Inl e \<Rightarrow> Inl e
      | Inr entry \<Rightarrow> article_counter_loop rows (article_words @ [entry]))"

definition get_article_counter :: "article list \<Rightarrow> error + pyval" where
  "get_article_counter articles_df =
     (case article_counter_loop articles_df [] of
        Inl e \<Rightarrow> Inl e
      | Inr article_words \<Rightarrow> JSONResponse (PList article_words))"

subsection \<open>Regular expressions behind \<^verbatim>\<open>str.contains\<close>\<close>

text \<open>
  \<^verbatim>\<open>Series.str.contains(pat, case=..., na=False)\<close> is called with its default
  \<^verbatim>\<open>regex=True\<close>: the query string is compiled as a regular expression of Python's
  \<^verbatim>\<open>re\<close> module (with \<^verbatim>\<open>re.IGNORECASE\<close> when \<^verbatim>\<open>case=False\<close>) and searched for in
  every cell.

  The model interprets the patterns built from ordinary characters and the dot, which
  matches every character except the newline. The special characters of \<^verbatim>\<open>re\<close> are
  \<^verbatim>\<open>. ^ $ * + ? { } [ ] \ | ( )\<close>. For a pattern with any other special character the
  behaviour of \<^verbatim>\<open>re.compile\<close> is a parameter of the model (\<open>engine\<close>): it gives either
  \<^verbatim>\<open>re.error\<close> or the search predicate of the compiled pattern.
\<close>

datatype re_atom = Lit char | AnyChar

type_synonym regex_engine = "bool \<Rightarrow> string \<Rightarrow> error + (string \<Rightarrow> bool)"

definition re_special :: "char list" where
  "re_special = [CHR ''.'', CHR 0x5E, CHR ''$'', CHR ''*'', CHR ''+'', CHR ''?'', CHR ''{'',
     CHR ''}'', CHR ''['', CHR '']'', CHR 0x5C, CHR ''|'', CHR ''('', CHR '')'']"

definition parse_atom :: "char \<Rightarrow> re_atom option" where
  "parse_atom c =
     (if c = CHR ''.'' then Some AnyChar
      else if c \<in> set re_special then None
      else Some (Lit c))"

fun atom_matches :: "bool \<Rightarrow> re_atom \<Rightarrow> char \<Rightarrow> bool" where
  "atom_matches ignorecase AnyChar c = (c \<noteq> CHR 0x0A)"
| "atom_matches ignorecase (Lit p) c =
     (if ignorecase then lower_char p = lower_char c else p = c)"

fun match_here :: "bool \<Rightarrow> re_atom list \<Rightarrow> string \<Rightarrow> bool" where
  "match_here ignorecase [] s = True"
| "match_here ignorecase (p # ps) [] = False"
| "match_here ignorecase (p # ps) (c # cs) =
     (atom_matches ignorecase p c \<and> match_here ignorecase ps cs)"

fun re_search :: "bool \<Rightarrow> re_atom list \<Rightarrow> string \<Rightarrow> bool" where
  "re_search ignorecase ps [] = match_here ignorecase ps []"
| "re_search ignorecase ps (c # cs) =
     (match_here ignorecase ps (c # cs) \<or> re_search ignorecase ps cs)"

definition re_compile :: "regex_engine \<Rightarrow> bool \<Rightarrow> string \<Rightarrow> error + (string \<Rightarrow> bool)" where
  "re_compile engine ignorecase pat =
     (case those (map parse_atom pat) of
        Some atoms \<Rightarrow> Inr (re_search ignorecase atoms)
      | None \<Rightarrow> engine ignorecase pat)"

text \<open>
  The accessor \<^verbatim>\<open>.str\<close> is looked up first. On a \<^verbatim>\<open>float64\<close> column, that is a
  non-empty column whose cells are all missing, it raises \<^verbatim>\<open>AttributeError\<close>.
\<close>

definition str_accessor :: "string option list \<Rightarrow> error + string option list" where
  "str_accessor col =
     (if col \<noteq> [] \<and> list_all (\<lambda>c. c = None) col then Inl AttributeError else Inr col)"

text \<open>
  Then the pattern is compiled once, before any cell is looked at; \<^verbatim>\<open>na=False\<close> makes
  the mask \<^verbatim>\<open>False\<close> at a missing cell.
\<close>

definition str_contains ::
  "regex_engine \<Rightarrow> string option list \<Rightarrow> string \<Rightarrow> bool \<Rightarrow> error + bool list" where
  "str_contains engine col pat case_sensitive =
     (case str_accessor col of
        Inl e \<Rightarrow> Inl e
      | Inr cells \<Rightarrow>
          (case re_compile engine (\<not> case_sensitive) pat of
             Inl e \<Rightarrow> Inl e
           | Inr found \<Rightarrow>
               Inr (map (\<lambda>x. case x of None \<Rightarrow> False | Some s \<Rightarrow> found s) cells)))"

text \<open>\<^verbatim>\<open>df[mask]\<close>: the rows at which the mask is true, in table order.\<close>

definition boolean_index :: "'a list \<Rightarrow> bool list \<Rightarrow> 'a list" where
  "boolean_index df hits = map fst (filter snd (zip df hits))"

subsection \<open>Endpoints 5, 6 and 7: comparative, by-coin, meta\<close>

definition get_comparative ::
  "regex_engine \<Rightarrow> article list \<Rightarrow> string \<Rightarrow> string \<Rightarrow> error + pyval" where
  "get_comparative engine articles_df category1 category2 =
     (case str_contains engine (map link articles_df) category1 True of
        Inl e \<Rightarrow> Inl e
      | Inr hits1 \<Rightarrow>
          (case str_contains engine (map link articles_df) category2 True of
             Inl e \<Rightarrow> Inl e
           | Inr hits2 \<Rightarrow>
               (let articles_in_category1 = boolean_index articles_df hits1;
                    articles_in_category2 = boolean_index articles_df hits2
                in JSONResponse (PDict
                     [(''category1'', PInt (int (length articles_in_category1))),
                      (''category2'', PInt (int (length articles_in_category2)))]))))"

definition get_by_coin :: "regex_engine \<Rightarrow> article list \<Rightarrow> string \<Rightarrow> error + pyval" where
  "get_by_coin engine articles_df coin =
     (case str_contains engine (map content articles_df) coin False of
        Inl e \<Rightarrow> Inl e
      | Inr hits \<Rightarrow>
          (let coin_articles = boolean_index articles_df hits
           in JSONResponse (PList (map title_link coin_articles))))"

text \<open>
  \<^verbatim>\<open>apply(len)\<close> calls \<^verbatim>\<open>len\<close> on every cell in turn; a missing cell is a float, which
  has no length. The mean of an empty series is NaN.
\<close>

fun apply_len :: "string option list \<Rightarrow> error + nat list" where
  "apply_len [] = Inr []"
| "apply_len (None # cs) = Inl TypeError"
| "apply_len (Some s # cs) =
     (case apply_len cs of Inl e \<Rightarrow> Inl e | Inr ns \<Rightarrow> Inr (length s # ns))"

definition mean :: "nat list \<Rightarrow> pyfloat" where
  "mean ns = (if ns = [] then NaN else Finite (of_nat (sum_list ns) / of_nat (length ns)))"

definition get_meta :: "article list \<Rightarrow> error + pyval" where
  "get_meta articles_df =
     (let total_articles = length articles_df
      in case apply_len (map content articles_df) of
           Inl e \<Rightarrow> Inl e
         | Inr lens \<Rightarrow>
             (let avg_article_length = mean lens
              in JSONResponse (PDict
                   [(''total_articles'', PInt (int total_articles)),
                    (''average_article_length'', PFloat avg_article_length)])))"

subsection \<open>Notions of the specification\<close>

text \<open>
  An article of the specification's data model has a string in every field. The newsfeed
  and by-coin responses only carry titles and links.
\<close>

definition titles_links_present :: "article list \<Rightarrow> bool" where
  "titles_links_present articles_df = list_all (\<lambda>a. title a \<noteq> None \<and> link a \<noteq> None) articles_df"

text \<open>A column with the dtype \<^verbatim>\<open>object\<close>: it is empty, or some cell of it holds a string.\<close>

definition text_column :: "string option list \<Rightarrow> bool" where
  "text_column col = (if col = [] then True else list_ex (\<lambda>c. c \<noteq> None) col)"

text \<open>A query string without any special character of \<^verbatim>\<open>re\<close>.\<close>

definition plain_query :: "string \<Rightarrow> bool" where
  "plain_query q = (filter (\<lambda>c. c \<in> set re_special) q = [])"

text \<open>
  An engine that rejects every pattern handed to it. It stands for the parameter in
  closed examples, whose patterns the model interprets itself.
\<close>

definition reject_all :: regex_engine where
  "reject_all ignorecase pat = Inl ReError"

text \<open>
  The specification's \<open>compareCategories\<close>: the number of articles whose link contains
  the category as a substring, for each of the two categories.
\<close>

definition link_contains :: "string \<Rightarrow> article \<Rightarrow> bool" where
  "link_contains category a = (case link a of None \<Rightarrow> False | Some l \<Rightarrow> sublist category l)"

definition compareCategories :: "article list \<Rightarrow> string \<Rightarrow> string \<Rightarrow> pyval" where
  "compareCategories articles_df category1 category2 =
     PDict [(''category1'', PInt (int (length (filter (link_contains category1) articles_df)))),
            (''category2'', PInt (int (length (filter (link_contains category2) articles_df))))]"

text \<open>
  The specification's \<open>articlesByCoin\<close>: the title and link of the articles whose
  content contains the coin as a substring, letter case ignored, in table order.
\<close>

definition content_mentions :: "string \<Rightarrow> article \<Rightarrow> bool" where
  "content_mentions coin a =
     (case content a of None \<Rightarrow> False | Some c \<Rightarrow> sublist (str_lower coin) (str_lower c))"

definition articlesByCoin :: "article list \<Rightarrow> string \<Rightarrow> pyval" where
  "articlesByCoin articles_df coin = PList (map title_link (filter (content_mentions coin) articles_df))"

text \<open>
  A client that pages through the newsfeed: it asks for \<open>limit\<close> rows at offsets
  \<open>skip\<close>, \<open>skip + limit\<close>, ... and stops at the first empty page (or at an error).
\<close>

fun rows_of :: "pyval \<Rightarrow> pyval list" where
  "rows_of (PList rows) = rows"
| "rows_of v = []"

function newsfeed_pages :: "article list \<Rightarrow> nat \<Rightarrow> nat \<Rightarrow> error + pyval list" where
  "newsfeed_pages articles_df limit skip =
     (case get_newsfeed articles_df (int skip) (int limit) of
        Inl e \<Rightarrow> Inl e
      | Inr page \<Rightarrow>
          (if rows_of page = [] then Inr []
           else case newsfeed_pages articles_df limit (skip + limit) of
                  Inl e \<Rightarrow> Inl e
                | Inr pages \<Rightarrow> Inr (page # pages)))"
  by pat_completeness auto
termination
proof (relation "measure (\<lambda>(articles_df, limit, skip). length articles_df - skip)")
  show "wf (measure (\<lambda>(articles_df, limit, skip). length articles_df - skip))"
    by simp
next
  fix articles_df :: "article list" and limit skip :: nat and page :: pyval
  assume ok: "get_newsfeed articles_df (int skip) (int limit) = Inr page"
    and nonempty: "rows_of page \<noteq> []"
  from ok have "page = PList (map title_link
      (iloc articles_df (int skip) (int skip + int limit)))"
    by (simp add: get_newsfeed_def JSONResponse_def split: if_splits)
  with nonempty have "iloc articles_df (int skip) (int skip + int limit) \<noteq> []"
    by simp
  then have "skip < length articles_df \<and> 0 < limit"
    by (auto simp: iloc_def slice_index_def Let_def min_def split: if_splits)
  then show "((articles_df, limit, skip + limit), (articles_df, limit, skip))
      \<in> measure (\<lambda>(articles_df, limit, skip). length articles_df - skip)"
    by (simp add: diff_less_mono2)
qed

section \<open>Properties\<close>

subsection \<open>The JSON response\<close>

lemma json_compliant_title_link:
  "title a \<noteq> None \<Longrightarrow> link a \<noteq> None \<Longrightarrow> json_compliant (title_link a)"
  by (auto simp: title_link_def cell_value_def)

lemma json_compliant_title_links:
  "titles_links_present rows \<Longrightarrow> list_all json_compliant (map title_link rows)"
  by (induction rows) (simp_all add: titles_links_present_def json_compliant_title_link)

subsection \<open>Article counter\<close>

lemma article_top_words_raises: "article_top_words row = Inl AttributeError"
  by (simp add: article_top_words_def Let_def split: option.splits)

lemma article_counter_raises:
  "articles_df \<noteq> [] \<Longrightarrow> get_article_counter articles_df = Inl AttributeError"
  by (cases articles_df) (simp_all add: get_article_counter_def article_top_words_raises)

lemma article_counter_empty: "get_article_counter [] = Inr (PList [])"
  by (simp add: get_article_counter_def JSONResponse_def)

text \<open>
  Claim C1 says that the article counter returns, for every article, its title with the
  at most five most frequent tokens of its content that are no stop words. The code
  filters the counts into a plain dict and then calls \<^verbatim>\<open>most_common\<close> on it: on a table
  of one article the endpoint raises \<^verbatim>\<open>AttributeError\<close> and returns no entry at all.
\<close>

theorem article_counter_fails_on_one_article:
  "get_article_counter
     [\<lparr>title = Some ''Markets'', link = Some ''news/1'', content = Some ''bitcoin rises''\<rparr>]
   = Inl AttributeError"
  by (simp add: get_article_counter_def article_top_words_def Let_def)

text \<open>
  Claim C2 says that no operation raises, whatever the tables hold, and that empty
  tables give empty or zeroed results. Two operations do raise: the article counter on a
  table of one article (the defect of C1), and the meta endpoint on the empty article
  table (the defect of C8).
\<close>

theorem operations_can_raise:
  "get_article_counter
     [\<lparr>title = Some ''t'', link = Some ''l'', content = Some ''the coin''\<rparr>] = Inl AttributeError
   \<and> get_meta [] = Inl ValueError"
  by (simp add: get_article_counter_def article_top_words_def Let_def get_meta_def mean_def
      JSONResponse_def)

subsection \<open>Word cloud\<close>

lemma sort_values_desc_sorted:
  "sorted_wrt (\<lambda>a b. k b \<le> k a) (sort_values_desc k df)"
proof -
  have "sorted (map (\<lambda>r. - k r) (sort_key (\<lambda>r. - k r) df))"
    by (rule sorted_sort_key)
  then show ?thesis
    by (simp add: sort_values_desc_def sorted_map)
qed

lemma mset_sort_values_desc: "mset (sort_values_desc k df) = mset df"
  by (simp add: sort_values_desc_def)

lemma json_compliant_grouped_records:
  "list_all json_compliant (map grouped_record groups)"
  by (induction groups) (simp_all add: grouped_record_def)

lemma groupby_word_sum_entries:
  "g \<in> set (groupby_word_sum df) \<Longrightarrow>
     snd g = int64 (sum_list (map count' (filter (\<lambda>r. word r = fst g) df)))"
  by (auto simp: groupby_word_sum_def)

text \<open>
  Any two descending orders of the same rows agree on the sequence of keys: the order
  chosen among equal keys does not show in the keys.
\<close>

lemma descending_keys_unique:
  assumes "mset ys = mset xs" and "sorted_wrt (\<lambda>a b. k b \<le> k a) ys"
  shows "map k ys = map k (sort_values_desc k xs)"
proof -
  let ?f = "\<lambda>r. - k r"
  have "sorted (map ?f ys)"
    using assms(2) by (simp add: sorted_map)
  moreover have "sorted (map ?f (sort_values_desc k xs))"
    by (simp add: sort_values_desc_def)
  moreover have "mset (map ?f ys) = mset (map ?f (sort_values_desc k xs))"
    using assms(1) by (simp add: sort_values_desc_def)
  ultimately have "map ?f ys = map ?f (sort_values_desc k xs)"
    by (metis properties_for_sort)
  then have "map uminus (map ?f ys) = map uminus (map ?f (sort_values_desc k xs))"
    by simp
  then show ?thesis
    by (simp add: comp_def)
qed

lemma word_cloud_any_order:
  assumes "mset ys = mset (groupby_word_sum word_counts_df)"
    and "sorted_wrt (\<lambda>a b. snd b \<le> snd a) ys"
  shows "JSONResponse (PList (map grouped_record (take 10 ys))) = get_word_cloud word_counts_df"
proof -
  have rec: "map grouped_record zs = map (\<lambda>c. PDict [(''count'', PInt c)]) (map snd zs)" for zs
    by (simp add: grouped_record_def)
  have "map snd (take 10 ys) = map snd (get_word_counts word_counts_df)"
    using descending_keys_unique [OF assms] by (simp add: get_word_counts_def flip: take_map)
  then show ?thesis
    by (simp only: get_word_cloud_def rec)
qed

text \<open>
  What the word cloud does return: at most ten records, each holding only the summed
  count of one word, in non-increasing order of that count.
\<close>

lemma word_cloud_shape:
  "\<exists>groups. get_word_cloud word_counts_df = Inr (PList (map grouped_record groups))
     \<and> length groups \<le> 10
     \<and> sorted_wrt (\<lambda>a b. snd b \<le> snd a) groups
     \<and> list_all (\<lambda>g. snd g =
           int64 (sum_list (map count' (filter (\<lambda>r. word r = fst g) word_counts_df)))) groups"
proof -
  let ?sorted = "sort_values_desc snd (groupby_word_sum word_counts_df)"
  let ?groups = "get_word_counts word_counts_df"
  have "get_word_cloud word_counts_df = Inr (PList (map grouped_record ?groups))"
    by (simp add: get_word_cloud_def JSONResponse_def json_compliant_grouped_records)
  moreover have "length ?groups \<le> 10"
    by (simp add: get_word_counts_def)
  moreover have "sorted_wrt (\<lambda>a b. snd b \<le> snd a) ?groups"
    unfolding get_word_counts_def
    by (rule sorted_wrt_take) (rule sort_values_desc_sorted)
  moreover have "list_all (\<lambda>g. snd g =
      int64 (sum_list (map count' (filter (\<lambda>r. word r = fst g) word_counts_df)))) ?groups"
  proof -
    have "set ?groups \<subseteq> set (groupby_word_sum word_counts_df)"
      using set_take_subset [of 10 ?sorted]
      by (simp add: get_word_counts_def sort_values_desc_def)
    then show ?thesis
      unfolding list_all_iff using groupby_word_sum_entries by blast
  qed
  ultimately show ?thesis by blast
qed

text \<open>
  Claim C3 says that every record of the word cloud holds the word and its summed count.
  Grouping moves the word into the index of the frame, and the records are built from
  the columns only: on a table of one row the single record holds the count and no word.
\<close>

theorem word_cloud_drops_the_word:
  "get_word_cloud [\<lparr>word = ''btc'', count' = 3\<rparr>] = Inr (PList [PDict [(''count'', PInt 3)]])"
  by (simp add: get_word_cloud_def get_word_counts_def sort_values_desc_def groupby_word_sum_def
      grouped_record_def JSONResponse_def int64_def)

subsection \<open>Meta\<close>

text \<open>
  Claim C8 says that on the empty article table the meta endpoint returns
  \<open>total_articles = 0\<close> and a defined average length without raising. The mean of the
  empty series is NaN, which the JSON response refuses: the endpoint raises
  \<^verbatim>\<open>ValueError\<close>.
\<close>

theorem meta_fails_on_empty_table: "get_meta [] = Inl ValueError"
  by (simp add: get_meta_def mean_def JSONResponse_def)

subsection \<open>Newsfeed\<close>

lemma iloc_nonneg:
  assumes "0 \<le> skip" "0 \<le> limit"
  shows "iloc xs skip (skip + limit) = take (nat limit) (drop (nat skip) xs)"
proof (cases "nat skip \<ge> length xs")
  case True
  with assms show ?thesis
    by (simp add: iloc_def slice_index_def Let_def)
next
  case False
  with assms show ?thesis
    by (auto simp: iloc_def slice_index_def Let_def min_def nat_add_distrib)
qed

lemma titles_links_present_take_drop:
  "titles_links_present xs \<Longrightarrow> titles_links_present (take n (drop m xs))"
  unfolding titles_links_present_def list_all_iff
  by (auto dest: in_set_takeD in_set_dropD)

lemma newsfeed_response:
  assumes "0 \<le> skip" "0 \<le> limit"
  shows "get_newsfeed articles_df skip limit =
    JSONResponse (PList (map title_link (take (nat limit) (drop (nat skip) articles_df))))"
  using assms by (simp add: get_newsfeed_def iloc_nonneg)

lemma newsfeed_complete_window:
  assumes "0 \<le> skip" "0 \<le> limit"
    and "titles_links_present (take (nat limit) (drop (nat skip) articles_df))"
  shows "get_newsfeed articles_df skip limit =
    Inr (PList (map title_link (take (nat limit) (drop (nat skip) articles_df))))"
  using assms by (simp add: newsfeed_response JSONResponse_def json_compliant_title_links)

lemma newsfeed_window:
  assumes "titles_links_present articles_df" "0 \<le> skip" "0 \<le> limit"
  shows "get_newsfeed articles_df skip limit =
    Inr (PList (map title_link (take (nat limit) (drop (nat skip) articles_df))))"
  using assms by (simp add: newsfeed_complete_window titles_links_present_take_drop)

lemma newsfeed_past_the_end:
  assumes "0 \<le> skip" "0 \<le> limit" "int (length articles_df) \<le> skip"
  shows "get_newsfeed articles_df skip limit = Inr (PList [])"
  using assms by (simp add: newsfeed_response JSONResponse_def)

text \<open>
  Claim C9, amended: for every article table and all non-negative \<open>skip\<close> and \<open>limit\<close>
  the newsfeed raises nothing out of range. When \<open>skip\<close> is at least the number of
  articles it returns the empty sequence. Whenever every row of the window from \<open>skip\<close>
  to \<open>skip + limit\<close> has a title and a link, it returns exactly the rows of that
  window, at most \<open>limit\<close> of them.
\<close>

theorem newsfeed_returns_window:
  "0 \<le> skip \<Longrightarrow> 0 \<le> limit \<Longrightarrow>
     (int (length articles_df) \<le> skip \<longrightarrow>
        get_newsfeed articles_df skip limit = Inr (PList []))
     \<and> (titles_links_present (take (nat limit) (drop (nat skip) articles_df)) \<longrightarrow>
        get_newsfeed articles_df skip limit =
          Inr (PList (map title_link (take (nat limit) (drop (nat skip) articles_df))))
        \<and> int (length (map title_link (take (nat limit) (drop (nat skip) articles_df)))) \<le> limit)"
  by (auto simp: newsfeed_complete_window newsfeed_past_the_end)

theorem newsfeed_returns_window_witness:
  "titles_links_present (take (nat 1) (drop (nat 0)
     [\<lparr>title = Some ''a'', link = Some ''u/a'', content = Some ''x''\<rparr>,
      \<lparr>title = None, link = Some ''u/b'', content = Some ''y''\<rparr>]))
   \<and> get_newsfeed
     [\<lparr>title = Some ''a'', link = Some ''u/a'', content = Some ''x''\<rparr>,
      \<lparr>title = None, link = Some ''u/b'', content = Some ''y''\<rparr>] 0 1
     = Inr (PList [PDict [(''title'', PStr ''a''), (''link'', PStr ''u/a'')]])
   \<and> get_newsfeed
     [\<lparr>title = Some ''a'', link = Some ''u/a'', content = Some ''x''\<rparr>,
      \<lparr>title = None, link = Some ''u/b'', content = Some ''y''\<rparr>] 2 5
     = Inr (PList [])"
  using newsfeed_returns_window [of 0 1
      "[\<lparr>title = Some ''a'', link = Some ''u/a'', content = Some ''x''\<rparr>,
      \<lparr>title = None, link = Some ''u/b'', content = Some ''y''\<rparr>]"]
    newsfeed_returns_window [of 2 5
      "[\<lparr>title = Some ''a'', link = Some ''u/a'', content = Some ''x''\<rparr>,
      \<lparr>title = None, link = Some ''u/b'', content = Some ''y''\<rparr>]"]
  by (simp add: titles_links_present_def title_link_def cell_value_def)

text \<open>
  Claim C9 as stated, for every article table, fails: a row with a missing title inside
  the window puts a NaN into the response, which the JSON response refuses.
\<close>

theorem newsfeed_missing_title_counterexample:
  "get_newsfeed [\<lparr>title = None, link = Some ''u/b'', content = Some ''y''\<rparr>] 0 10
     = Inl ValueError"
  by (simp add: get_newsfeed_def iloc_def slice_index_def JSONResponse_def title_link_def
      cell_value_def)

lemma newsfeed_pages_from:
  assumes "titles_links_present articles_df" "0 < limit"
  shows "\<exists>pages. newsfeed_pages articles_df limit skip = Inr pages
           \<and> concat (map rows_of pages) = map title_link (drop skip articles_df)"
  using assms
proof (induction articles_df limit skip rule: newsfeed_pages.induct)
  case (1 articles_df limit skip)
  let ?page = "PList (map title_link (take limit (drop skip articles_df)))"
  have page: "get_newsfeed articles_df (int skip) (int limit) = Inr ?page"
    using "1.prems" by (simp add: newsfeed_window)
  show ?case
  proof (cases "rows_of ?page = []")
    case True
    then have "drop skip articles_df = []"
      using "1.prems"(2) by (cases "drop skip articles_df") auto
    with True page show ?thesis
      by (subst newsfeed_pages.simps) simp
  next
    case False
    from "1.IH" [OF page False "1.prems"]
    obtain pages where rest: "newsfeed_pages articles_df limit (skip + limit) = Inr pages"
      and cat: "concat (map rows_of pages) = map title_link (drop (skip + limit) articles_df)"
      by blast
    have "newsfeed_pages articles_df limit skip = Inr (?page # pages)"
      using page False rest by (subst newsfeed_pages.simps) simp
    moreover have "concat (map rows_of (?page # pages)) = map title_link (drop skip articles_df)"
    proof -
      have "take limit (drop skip articles_df) @ drop (skip + limit) articles_df
          = drop skip articles_df"
        by (metis add.commute append_take_drop_id drop_drop)
      then show ?thesis
        using cat by (simp flip: map_append)
    qed
    ultimately show ?thesis by blast
  qed
qed

text \<open>
  Claim C7, amended: for every article table in which every row has a title and a link,
  and every positive \<open>limit\<close>, paging through the newsfeed from offset 0 in steps of
  \<open>limit\<close> until the first empty page succeeds, and the pages concatenated are the
  title/link rows of the whole table in table order: nothing is repeated, nothing is
  left out.
\<close>

theorem newsfeed_pages_reconstruct:
  "titles_links_present articles_df \<Longrightarrow> 0 < limit \<Longrightarrow>
     (\<exists>pages. newsfeed_pages articles_df limit 0 = Inr pages
        \<and> concat (map rows_of pages) = map title_link articles_df)"
  using newsfeed_pages_from [of articles_df limit 0] by simp

theorem newsfeed_pages_reconstruct_witness:
  "titles_links_present
     [\<lparr>title = Some ''a'', link = Some ''u/a'', content = Some ''x''\<rparr>,
      \<lparr>title = Some ''b'', link = Some ''u/b'', content = None\<rparr>,
      \<lparr>title = Some ''c'', link = Some ''u/c'', content = Some ''z''\<rparr>]
   \<and> (0::nat) < 2
   \<and> (\<exists>pages. newsfeed_pages
         [\<lparr>title = Some ''a'', link = Some ''u/a'', content = Some ''x''\<rparr>,
      \<lparr>title = Some ''b'', link = Some ''u/b'', content = None\<rparr>,
      \<lparr>title = Some ''c'', link = Some ''u/c'', content = Some ''z''\<rparr>] 2 0 = Inr pages
        \<and> concat (map rows_of pages) =
          [PDict [(''title'', PStr ''a''), (''link'', PStr ''u/a'')],
           PDict [(''title'', PStr ''b''), (''link'', PStr ''u/b'')],
           PDict [(''title'', PStr ''c''), (''link'', PStr ''u/c'')]])"
  using newsfeed_pages_reconstruct [of
      "[\<lparr>title = Some ''a'', link = Some ''u/a'', content = Some ''x''\<rparr>,
      \<lparr>title = Some ''b'', link = Some ''u/b'', content = None\<rparr>,
      \<lparr>title = Some ''c'', link = Some ''u/c'', content = Some ''z''\<rparr>]" 2]
  by (simp add: titles_links_present_def title_link_def cell_value_def)

lemma json_compliant_title_links_iff:
  "list_all json_compliant (map title_link rows) = titles_links_present rows"
  by (induction rows)
     (auto simp: titles_links_present_def title_link_def cell_value_def split: option.splits)

text \<open>The hypothesis on the table is needed: with a title or a link missing, paging fails.\<close>

lemma newsfeed_pages_fail:
  assumes "0 < limit" "\<not> titles_links_present (drop skip articles_df)"
  shows "newsfeed_pages articles_df limit skip = Inl ValueError"
  using assms
proof (induction articles_df limit skip rule: newsfeed_pages.induct)
  case (1 articles_df limit skip)
  let ?window = "take limit (drop skip articles_df)"
  have response: "get_newsfeed articles_df (int skip) (int limit) =
      JSONResponse (PList (map title_link ?window))"
    by (simp add: newsfeed_response)
  show ?case
  proof (cases "titles_links_present ?window")
    case False
    then have "get_newsfeed articles_df (int skip) (int limit) = Inl ValueError"
      by (simp add: response JSONResponse_def json_compliant_title_links_iff)
    then show ?thesis
      by (subst newsfeed_pages.simps) simp
  next
    case True
    then have page: "get_newsfeed articles_df (int skip) (int limit) =
        Inr (PList (map title_link ?window))"
      by (simp add: response JSONResponse_def json_compliant_title_links_iff)
    have "drop skip articles_df \<noteq> []"
      using "1.prems"(2) by (auto simp: titles_links_present_def)
    with "1.prems"(1) have nonempty: "rows_of (PList (map title_link ?window)) \<noteq> []"
      by (cases "drop skip articles_df") auto
    have "?window @ drop (skip + limit) articles_df = drop skip articles_df"
      by (metis add.commute append_take_drop_id drop_drop)
    then have "titles_links_present (drop skip articles_df) =
        (titles_links_present ?window \<and> titles_links_present (drop (skip + limit) articles_df))"
      unfolding titles_links_present_def by (simp flip: list_all_append)
    with True "1.prems"(2) have "\<not> titles_links_present (drop (skip + limit) articles_df)"
      by simp
    from "1.IH" [OF page nonempty "1.prems"(1) this]
    have "newsfeed_pages articles_df limit (skip + limit) = Inl ValueError" .
    with page nonempty show ?thesis
      by (subst newsfeed_pages.simps) simp
  qed
qed

text \<open>
  Claim C7 as stated, for every article table, fails: on a table whose second row has no
  title, paging with \<open>limit = 1\<close> returns the first page and fails on the second, so
  the table is not reconstructed.
\<close>

theorem newsfeed_pages_missing_title_counterexample:
  "newsfeed_pages
     [\<lparr>title = Some ''a'', link = Some ''u/a'', content = Some ''x''\<rparr>,
      \<lparr>title = None, link = Some ''u/b'', content = Some ''y''\<rparr>] 1 0
     = Inl ValueError"
  by code_simp

subsection \<open>Word trend\<close>

lemma json_compliant_word_count_records:
  "list_all json_compliant (map word_count_record rows)"
  by (induction rows) (simp_all add: word_count_record_def)

lemma word_count_records_of_word:
  "\<forall>r \<in> set zs. word r = w \<Longrightarrow>
     map word_count_record zs =
       map (\<lambda>c. PDict [(''word'', PStr w), (''count'', PInt c)]) (map count' zs)"
  by (induction zs) (simp_all add: word_count_record_def)

lemma word_trend_any_order:
  assumes "mset ys = mset (filter (\<lambda>r. word r = w) word_counts_df)"
    and "sorted_wrt (\<lambda>a b. count' b \<le> count' a) ys"
  shows "JSONResponse (PList (map word_count_record ys)) = get_word_trend word_counts_df w"
proof -
  let ?rows = "sort_values_desc count' (filter (\<lambda>r. word r = w) word_counts_df)"
  have "\<forall>r \<in> set ys. word r = w"
    using mset_eq_setD [OF assms(1)] by simp
  then have ys: "map word_count_record ys =
      map (\<lambda>c. PDict [(''word'', PStr w), (''count'', PInt c)]) (map count' ys)"
    by (rule word_count_records_of_word)
  have "\<forall>r \<in> set ?rows. word r = w"
    by (simp add: sort_values_desc_def)
  then have rows: "map word_count_record ?rows =
      map (\<lambda>c. PDict [(''word'', PStr w), (''count'', PInt c)]) (map count' ?rows)"
    by (rule word_count_records_of_word)
  have keys: "map count' ys = map count' ?rows"
    by (rule descending_keys_unique [OF assms])
  have "map word_count_record ys = map word_count_record ?rows"
    by (simp only: ys rows keys)
  then show ?thesis
    by (simp only: get_word_trend_def Let_def)
qed

text \<open>
  Claim C6: for every word-counts table and every query word, the word trend returns
  the records of exactly the rows whose word equals the query (compared as strings,
  letter case included), ordered by count descending, and the empty sequence when no
  row has that word.
\<close>

theorem word_trend_exact:
  "\<exists>rows. get_word_trend word_counts_df w = Inr (PList (map word_count_record rows))
     \<and> mset rows = mset (filter (\<lambda>r. word r = w) word_counts_df)
     \<and> sorted_wrt (\<lambda>a b. count' b \<le> count' a) rows
     \<and> (w \<notin> set (map word word_counts_df) \<longrightarrow>
          get_word_trend word_counts_df w = Inr (PList []))"
proof -
  let ?rows = "sort_values_desc count' (filter (\<lambda>r. word r = w) word_counts_df)"
  have run: "get_word_trend word_counts_df w = Inr (PList (map word_count_record ?rows))"
    by (simp add: get_word_trend_def Let_def JSONResponse_def json_compliant_word_count_records)
  have absent: "get_word_trend word_counts_df w = Inr (PList [])"
    if "w \<notin> set (map word word_counts_df)"
  proof -
    from that have "filter (\<lambda>r. word r = w) word_counts_df = []"
      by (auto simp: filter_empty_conv)
    then show ?thesis
      by (simp add: run sort_values_desc_def)
  qed
  from run absent show ?thesis
    using mset_sort_values_desc sort_values_desc_sorted by blast
qed

theorem word_trend_exact_witness:
  "get_word_trend
     [\<lparr>word = ''btc'', count' = 3\<rparr>, \<lparr>word = ''Btc'', count' = 9\<rparr>, \<lparr>word = ''btc'', count' = 4\<rparr>]
     ''doge'' = Inr (PList [])
   \<and> get_word_trend
     [\<lparr>word = ''btc'', count' = 3\<rparr>, \<lparr>word = ''Btc'', count' = 9\<rparr>, \<lparr>word = ''btc'', count' = 4\<rparr>]
     ''btc'' = Inr (PList [PDict [(''word'', PStr ''btc''), (''count'', PInt 4)],
                           PDict [(''word'', PStr ''btc''), (''count'', PInt 3)]])"
  using word_trend_exact [of
     "[\<lparr>word = ''btc'', count' = 3\<rparr>, \<lparr>word = ''Btc'', count' = 9\<rparr>, \<lparr>word = ''btc'', count' = 4\<rparr>]"
     "''doge''"]
  by (simp add: get_word_trend_def sort_values_desc_def word_count_record_def JSONResponse_def)

subsection \<open>Comparative and by-coin\<close>

lemma str_accessor_text: "text_column col \<Longrightarrow> str_accessor col = Inr col"
  by (auto simp: text_column_def str_accessor_def list_ex_iff list_all_iff split: if_splits)

lemma str_accessor_float:
  "col \<noteq> [] \<Longrightarrow> list_all (\<lambda>c. c = None) col \<Longrightarrow> str_accessor col = Inl AttributeError"
  by (simp add: str_accessor_def)

lemma text_column_present:
  "text_column (map sel df) \<Longrightarrow> text_column (map sel (filter (\<lambda>a. sel a \<noteq> None) df))"
  by (auto simp: text_column_def list_ex_iff filter_empty_conv split: if_splits)

lemma parse_atom_plain: "c \<notin> set re_special \<Longrightarrow> parse_atom c = Some (Lit c)"
  by (auto simp: parse_atom_def re_special_def)

lemma those_parse_plain: "plain_query q \<Longrightarrow> those (map parse_atom q) = Some (map Lit q)"
proof (induction q)
  case Nil
  then show ?case by simp
next
  case (Cons c q)
  from Cons.prems have c: "c \<notin> set re_special" and q: "plain_query q"
    by (auto simp: plain_query_def split: if_splits)
  with Cons.IH show ?case
    by (simp add: parse_atom_plain)
qed

lemma re_compile_plain:
  "plain_query q \<Longrightarrow> re_compile engine ignorecase q = Inr (re_search ignorecase (map Lit q))"
  by (simp add: re_compile_def those_parse_plain)

lemma match_here_exact: "match_here False (map Lit p) s = prefix p s"
  by (induction p arbitrary: s) (case_tac s; simp)+

lemma match_here_ignorecase:
  "match_here True (map Lit p) s = prefix (str_lower p) (str_lower s)"
  unfolding str_lower_def
  by (induction p arbitrary: s) (case_tac s; simp)+

lemma re_search_exact: "re_search False (map Lit p) s = sublist p s"
  by (induction s) (simp_all add: match_here_exact sublist_Cons_right)

lemma re_search_ignorecase:
  "re_search True (map Lit p) s = sublist (str_lower p) (str_lower s)"
proof (induction s)
  case Nil
  then show ?case by (simp add: match_here_ignorecase str_lower_def)
next
  case (Cons c s)
  have "sublist (str_lower p) (str_lower (c # s))
      \<longleftrightarrow> prefix (str_lower p) (str_lower (c # s)) \<or> sublist (str_lower p) (str_lower s)"
    by (simp add: str_lower_def sublist_Cons_right)
  with Cons show ?case
    by (simp add: match_here_ignorecase)
qed

lemma boolean_index_map: "boolean_index df (map p df) = filter p df"
  by (induction df) (simp_all add: boolean_index_def)

lemma str_contains_column:
  "text_column (map sel df) \<Longrightarrow> re_compile engine (\<not> cs) pat = Inr found \<Longrightarrow>
     str_contains engine (map sel df) pat cs =
       Inr (map (\<lambda>a. case sel a of None \<Rightarrow> False | Some s \<Rightarrow> found s) df)"
  by (simp add: str_contains_def str_accessor_text comp_def)

lemma str_contains_error:
  "text_column col \<Longrightarrow> re_compile engine (\<not> cs) pat = Inl e \<Longrightarrow>
     str_contains engine col pat cs = Inl e"
  by (simp add: str_contains_def str_accessor_text)

lemma comparative_counts:
  assumes "text_column (map link articles_df)"
    and "re_compile engine False category1 = Inr found1"
    and "re_compile engine False category2 = Inr found2"
  shows "get_comparative engine articles_df category1 category2 =
     Inr (PDict
       [(''category1'', PInt (int (length (filter
           (\<lambda>a. case link a of None \<Rightarrow> False | Some l \<Rightarrow> found1 l) articles_df)))),
        (''category2'', PInt (int (length (filter
           (\<lambda>a. case link a of None \<Rightarrow> False | Some l \<Rightarrow> found2 l) articles_df))))])"
  using assms
  by (simp add: get_comparative_def str_contains_column boolean_index_map JSONResponse_def)

lemma by_coin_rows:
  assumes "text_column (map content articles_df)"
    and "re_compile engine True coin = Inr found"
  shows "get_by_coin engine articles_df coin =
     JSONResponse (PList (map title_link (filter
       (\<lambda>a. case content a of None \<Rightarrow> False | Some c \<Rightarrow> found c) articles_df)))"
  using assms
  by (simp add: get_by_coin_def str_contains_column boolean_index_map)

lemma link_contains_search:
  "(\<lambda>a. case link a of None \<Rightarrow> False | Some l \<Rightarrow> re_search False (map Lit category) l)
     = link_contains category"
  by (rule ext) (simp add: link_contains_def re_search_exact split: option.splits)

lemma content_mentions_search:
  "(\<lambda>a. case content a of None \<Rightarrow> False | Some c \<Rightarrow> re_search True (map Lit coin) c)
     = content_mentions coin"
  by (rule ext) (simp add: content_mentions_def re_search_ignorecase split: option.splits)

text \<open>
  Claim C4, amended: for every article table that is empty or has a link in at least one
  row, and every pair of categories that hold no special character of \<^verbatim>\<open>re\<close>, the
  comparative endpoint returns two independent counts, the number of articles whose link
  contains \<open>category1\<close> as a substring (letter case respected) and the same for
  \<open>category2\<close>; an article whose link contains both is counted in both.
\<close>

theorem comparative_counts_plain:
  "text_column (map link articles_df) \<Longrightarrow> plain_query category1 \<Longrightarrow> plain_query category2 \<Longrightarrow>
     get_comparative engine articles_df category1 category2 =
       Inr (compareCategories articles_df category1 category2)"
  by (simp add: comparative_counts [OF _ re_compile_plain re_compile_plain] compareCategories_def
      link_contains_search)

theorem comparative_counts_plain_witness:
  "text_column (map link
     [\<lparr>title = Some ''a'', link = Some ''n/media'', content = Some ''x''\<rparr>,
      \<lparr>title = Some ''b'', link = Some ''media/politics'', content = Some ''y''\<rparr>,
      \<lparr>title = Some ''c'', link = Some ''Media'', content = Some ''z''\<rparr>])
   \<and> plain_query ''media'' \<and> plain_query ''politics''
   \<and> get_comparative reject_all
     [\<lparr>title = Some ''a'', link = Some ''n/media'', content = Some ''x''\<rparr>,
      \<lparr>title = Some ''b'', link = Some ''media/politics'', content = Some ''y''\<rparr>,
      \<lparr>title = Some ''c'', link = Some ''Media'', content = Some ''z''\<rparr>]
     ''media'' ''politics''
     = Inr (PDict [(''category1'', PInt 2), (''category2'', PInt 1)])"
proof -
  let ?T = "[\<lparr>title = Some ''a'', link = Some ''n/media'', content = Some ''x''\<rparr>,
      \<lparr>title = Some ''b'', link = Some ''media/politics'', content = Some ''y''\<rparr>,
      \<lparr>title = Some ''c'', link = Some ''Media'', content = Some ''z''\<rparr>]"
  have t: "text_column (map link ?T)"
    by (simp add: text_column_def)
  have q1: "plain_query ''media''" and q2: "plain_query ''politics''"
    by (simp_all add: plain_query_def re_special_def)
  have "compareCategories ?T ''media'' ''politics''
     = PDict [(''category1'', PInt 2), (''category2'', PInt 1)]"
    by (simp add: compareCategories_def link_contains_def sublist_Cons_right)
  with t q1 q2 comparative_counts_plain [OF t q1 q2, of reject_all] show ?thesis
    by simp
qed

text \<open>
  Claim C4 as stated, for every article table and every pair of strings, fails twice.
  The category is compiled as a regular expression: the category \<^verbatim>\<open>.\<close> counts the
  article with link \<^verbatim>\<open>x\<close>, which does not contain a dot. And on a table whose only row
  has no link, the link column is no text column and no count is returned.
\<close>

theorem comparative_dot_counterexample:
  "get_comparative reject_all
     [\<lparr>title = Some ''t'', link = Some ''x'', content = Some ''c''\<rparr>] ''.'' ''.''
   \<noteq> Inr (compareCategories
     [\<lparr>title = Some ''t'', link = Some ''x'', content = Some ''c''\<rparr>] ''.'' ''.'')
   \<and> get_comparative reject_all
     [\<lparr>title = Some ''t'', link = None, content = Some ''c''\<rparr>] ''media'' ''politics''
   = Inl AttributeError"
  by (simp add: get_comparative_def str_contains_def str_accessor_def re_compile_def
      parse_atom_def boolean_index_def JSONResponse_def compareCategories_def link_contains_def
      sublist_Cons_right)

lemma titles_links_present_filter:
  "titles_links_present xs \<Longrightarrow> titles_links_present (filter p xs)"
  by (simp add: titles_links_present_def list_all_iff)

text \<open>
  Claim C5, amended: for every article table that is empty or has a content in at least
  one row, and every coin that holds no special character of \<^verbatim>\<open>re\<close>, such that every
  article whose content contains the coin (letter case ignored) has a title and a link,
  the by-coin endpoint returns exactly the title/link pairs of the articles whose content
  contains the coin as a substring, letter case ignored, in table order. In particular
  \<^verbatim>\<open>bitcoin\<close> finds \<^verbatim>\<open>Bitcoin\<close>, \<^verbatim>\<open>BITCOIN\<close> and \<^verbatim>\<open>BitCoin\<close>.
\<close>

theorem by_coin_plain:
  "text_column (map content articles_df) \<Longrightarrow> plain_query coin \<Longrightarrow>
   titles_links_present (filter (content_mentions coin) articles_df) \<Longrightarrow>
     get_by_coin engine articles_df coin = Inr (articlesByCoin articles_df coin)"
  by (simp add: by_coin_rows [OF _ re_compile_plain] articlesByCoin_def content_mentions_search
      JSONResponse_def json_compliant_title_links)

theorem by_coin_plain_witness:
  "text_column (map content
     [\<lparr>title = Some ''a'', link = Some ''u/a'', content = Some ''Bitcoin surges''\<rparr>,
      \<lparr>title = None, link = None, content = Some ''no mention''\<rparr>,
      \<lparr>title = Some ''c'', link = Some ''u/c'', content = Some ''BITCOIN''\<rparr>,
      \<lparr>title = Some ''d'', link = Some ''u/d'', content = Some ''a BitCoin''\<rparr>])
   \<and> plain_query ''bitcoin''
   \<and> titles_links_present (filter (content_mentions ''bitcoin'')
     [\<lparr>title = Some ''a'', link = Some ''u/a'', content = Some ''Bitcoin surges''\<rparr>,
      \<lparr>title = None, link = None, content = Some ''no mention''\<rparr>,
      \<lparr>title = Some ''c'', link = Some ''u/c'', content = Some ''BITCOIN''\<rparr>,
      \<lparr>title = Some ''d'', link = Some ''u/d'', content = Some ''a BitCoin''\<rparr>])
   \<and> get_by_coin reject_all
     [\<lparr>title = Some ''a'', link = Some ''u/a'', content = Some ''Bitcoin surges''\<rparr>,
      \<lparr>title = None, link = None, content = Some ''no mention''\<rparr>,
      \<lparr>title = Some ''c'', link = Some ''u/c'', content = Some ''BITCOIN''\<rparr>,
      \<lparr>title = Some ''d'', link = Some ''u/d'', content = Some ''a BitCoin''\<rparr>]
     ''bitcoin''
     = Inr (PList [PDict [(''title'', PStr ''a''), (''link'', PStr ''u/a'')],
                   PDict [(''title'', PStr ''c''), (''link'', PStr ''u/c'')],
                   PDict [(''title'', PStr ''d''), (''link'', PStr ''u/d'')]])"
proof -
  let ?T = "[\<lparr>title = Some ''a'', link = Some ''u/a'', content = Some ''Bitcoin surges''\<rparr>,
      \<lparr>title = None, link = None, content = Some ''no mention''\<rparr>,
      \<lparr>title = Some ''c'', link = Some ''u/c'', content = Some ''BITCOIN''\<rparr>,
      \<lparr>title = Some ''d'', link = Some ''u/d'', content = Some ''a BitCoin''\<rparr>]"
  have c: "text_column (map content ?T)"
    by (simp add: text_column_def)
  have q: "plain_query ''bitcoin''"
    by (simp add: plain_query_def re_special_def)
  have t: "titles_links_present (filter (content_mentions ''bitcoin'') ?T)"
    by code_simp
  have "articlesByCoin ?T ''bitcoin''
     = PList [PDict [(''title'', PStr ''a''), (''link'', PStr ''u/a'')],
              PDict [(''title'', PStr ''c''), (''link'', PStr ''u/c'')],
              PDict [(''title'', PStr ''d''), (''link'', PStr ''u/d'')]]"
    by code_simp
  with c q t by_coin_plain [OF c q t, of reject_all] show ?thesis
    by simp
qed

text \<open>
  Claim C5 as stated, for every article table and every string, fails three times. The
  coin is compiled as a regular expression: the coin \<^verbatim>\<open>.\<close> selects the article with
  content \<^verbatim>\<open>x\<close>, which does not contain a dot. On a table whose only row has no
  content, the content column is no text column and nothing is returned. And an article
  that mentions the coin but has no link puts a NaN into the response, which the JSON
  response refuses.
\<close>

theorem by_coin_dot_counterexample:
  "get_by_coin reject_all
     [\<lparr>title = Some ''t'', link = Some ''l'', content = Some ''x''\<rparr>] ''.''
   \<noteq> Inr (articlesByCoin
     [\<lparr>title = Some ''t'', link = Some ''l'', content = Some ''x''\<rparr>] ''.'')
   \<and> get_by_coin reject_all
     [\<lparr>title = Some ''t'', link = Some ''l'', content = None\<rparr>] ''x''
   = Inl AttributeError
   \<and> get_by_coin reject_all
     [\<lparr>title = Some ''t'', link = None, content = Some ''x''\<rparr>] ''x''
   = Inl ValueError"
  by (simp add: get_by_coin_def str_contains_def str_accessor_def re_compile_def parse_atom_def
      re_special_def boolean_index_def JSONResponse_def articlesByCoin_def content_mentions_def
      title_link_def cell_value_def str_lower_def lower_char_def sublist_Cons_right)

lemma filter_present:
  "filter (\<lambda>a. case sel a of None \<Rightarrow> False | Some s \<Rightarrow> found s) (filter (\<lambda>a. sel a \<noteq> None) df)
     = filter (\<lambda>a. case sel a of None \<Rightarrow> False | Some s \<Rightarrow> found s) df"
  by (induction df) auto

lemma comparative_error1:
  "text_column (map link articles_df) \<Longrightarrow> re_compile engine False category1 = Inl e \<Longrightarrow>
     get_comparative engine articles_df category1 category2 = Inl e"
  by (simp add: get_comparative_def str_contains_error)

lemma comparative_error2:
  "text_column (map link articles_df) \<Longrightarrow>
   re_compile engine False category1 = Inr found1 \<Longrightarrow>
   re_compile engine False category2 = Inl e \<Longrightarrow>
     get_comparative engine articles_df category1 category2 = Inl e"
  by (simp add: get_comparative_def str_contains_def str_accessor_text)

lemma by_coin_error:
  "text_column (map content articles_df) \<Longrightarrow> re_compile engine True coin = Inl e \<Longrightarrow>
     get_by_coin engine articles_df coin = Inl e"
  by (simp add: get_by_coin_def str_contains_error)

lemma comparative_ignores_missing:
  assumes col: "text_column (map link articles_df)"
  shows "get_comparative engine articles_df category1 category2 =
     get_comparative engine (filter (\<lambda>a. link a \<noteq> None) articles_df) category1 category2"
proof -
  note col' = text_column_present [OF col]
  show ?thesis
  proof (cases "re_compile engine False category1")
    case (Inl e)
    then show ?thesis
      by (simp only: comparative_error1 [OF col] comparative_error1 [OF col'])
  next
    case found1: (Inr found1)
    show ?thesis
    proof (cases "re_compile engine False category2")
      case (Inl e)
      with found1 show ?thesis
        by (simp only: comparative_error2 [OF col] comparative_error2 [OF col'])
    next
      case (Inr found2)
      with found1 show ?thesis
        by (simp only: comparative_counts [OF col] comparative_counts [OF col'] filter_present)
    qed
  qed
qed

lemma by_coin_ignores_missing:
  assumes col: "text_column (map content articles_df)"
  shows "get_by_coin engine articles_df coin =
     get_by_coin engine (filter (\<lambda>a. content a \<noteq> None) articles_df) coin"
proof -
  note col' = text_column_present [OF col]
  show ?thesis
  proof (cases "re_compile engine True coin")
    case (Inl e)
    then show ?thesis
      by (simp only: by_coin_error [OF col] by_coin_error [OF col'])
  next
    case (Inr found)
    then show ?thesis
      by (simp only: by_coin_rows [OF col] by_coin_rows [OF col'] filter_present)
  qed
qed

lemma by_coin_selected:
  assumes "text_column (map content articles_df)"
    and "re_compile engine True coin = Inr found"
    and "titles_links_present (filter
       (\<lambda>a. case content a of None \<Rightarrow> False | Some c \<Rightarrow> found c) articles_df)"
  shows "get_by_coin engine articles_df coin =
     Inr (PList (map title_link (filter
       (\<lambda>a. case content a of None \<Rightarrow> False | Some c \<Rightarrow> found c) articles_df)))"
  using assms by (simp add: by_coin_rows JSONResponse_def json_compliant_title_links)

text \<open>
  Claim C10, amended. On every article table that is empty or has a link in at least one
  row, a row whose link is missing never matches in the comparative endpoint, whatever
  the query strings are: the outcome is the same as on the table without these rows, and
  when the query strings compile it is the two counts, taken over the rows that have a
  link. On every article table that is empty or has a content in at least one row, a row
  whose content is missing never matches in the by-coin endpoint: the outcome is the
  same as on the table without these rows, and when the query string compiles and every
  selected row has a title and a link it is the list of the selected rows, all of which
  have a content.
\<close>

theorem missing_cells_never_match:
  "(text_column (map link articles_df) \<longrightarrow>
      get_comparative engine articles_df category1 category2 =
        get_comparative engine (filter (\<lambda>a. link a \<noteq> None) articles_df) category1 category2
      \<and> (re_compile engine False category1 = Inr found1
           \<and> re_compile engine False category2 = Inr found2 \<longrightarrow>
         get_comparative engine articles_df category1 category2 =
           Inr (PDict
             [(''category1'', PInt (int (length (filter
                 (\<lambda>a. case link a of None \<Rightarrow> False | Some l \<Rightarrow> found1 l) articles_df)))),
              (''category2'', PInt (int (length (filter
                 (\<lambda>a. case link a of None \<Rightarrow> False | Some l \<Rightarrow> found2 l) articles_df))))])))
   \<and> (text_column (map content articles_df) \<longrightarrow>
      get_by_coin engine articles_df coin =
        get_by_coin engine (filter (\<lambda>a. content a \<noteq> None) articles_df) coin
      \<and> (re_compile engine True coin = Inr found
           \<and> titles_links_present (filter
               (\<lambda>a. case content a of None \<Rightarrow> False | Some c \<Rightarrow> found c) articles_df) \<longrightarrow>
         get_by_coin engine articles_df coin =
           Inr (PList (map title_link (filter
             (\<lambda>a. case content a of None \<Rightarrow> False | Some c \<Rightarrow> found c) articles_df)))))"
  using comparative_ignores_missing by_coin_ignores_missing comparative_counts by_coin_selected
  by blast

theorem missing_cells_never_match_witness:
  "text_column (map link
       [\<lparr>title = Some ''a'', link = None, content = None\<rparr>,
        \<lparr>title = Some ''b'', link = Some ''media'', content = Some ''BTC up''\<rparr>])
   \<and> text_column (map content
       [\<lparr>title = Some ''a'', link = None, content = None\<rparr>,
        \<lparr>title = Some ''b'', link = Some ''media'', content = Some ''BTC up''\<rparr>])
   \<and> re_compile reject_all False ''media'' = Inr (re_search False (map Lit ''media''))
   \<and> re_compile reject_all False ''sport'' = Inr (re_search False (map Lit ''sport''))
   \<and> re_compile reject_all True ''btc'' = Inr (re_search True (map Lit ''btc''))
   \<and> get_comparative reject_all
       [\<lparr>title = Some ''a'', link = None, content = None\<rparr>,
        \<lparr>title = Some ''b'', link = Some ''media'', content = Some ''BTC up''\<rparr>]
       ''media'' ''sport''
     = Inr (PDict [(''category1'', PInt 1), (''category2'', PInt 0)])
   \<and> get_by_coin reject_all
       [\<lparr>title = Some ''a'', link = None, content = None\<rparr>,
        \<lparr>title = Some ''b'', link = Some ''media'', content = Some ''BTC up''\<rparr>]
       ''btc''
     = Inr (PList [PDict [(''title'', PStr ''b''), (''link'', PStr ''media'')]])"
proof -
  let ?T = "[\<lparr>title = Some ''a'', link = None, content = None\<rparr>,
        \<lparr>title = Some ''b'', link = Some ''media'', content = Some ''BTC up''\<rparr>]"
  have t1: "text_column (map link ?T)" and t2: "text_column (map content ?T)"
    by (simp_all add: text_column_def)
  have c1: "re_compile reject_all False ''media'' = Inr (re_search False (map Lit ''media''))"
    and c2: "re_compile reject_all False ''sport'' = Inr (re_search False (map Lit ''sport''))"
    and c3: "re_compile reject_all True ''btc'' = Inr (re_search True (map Lit ''btc''))"
    by (simp_all add: re_compile_def parse_atom_def re_special_def)
  have hit: "filter (\<lambda>a. case content a of None \<Rightarrow> False
        | Some c \<Rightarrow> re_search True (map Lit ''btc'') c) ?T
      = [\<lparr>title = Some ''b'', link = Some ''media'', content = Some ''BTC up''\<rparr>]"
    by code_simp
  have sel: "titles_links_present (filter (\<lambda>a. case content a of None \<Rightarrow> False
        | Some c \<Rightarrow> re_search True (map Lit ''btc'') c) ?T)"
    unfolding hit by (simp add: titles_links_present_def)
  from missing_cells_never_match [of ?T reject_all "''media''" "''sport''"
      "re_search False (map Lit ''media'')" "re_search False (map Lit ''sport'')"
      "''btc''" "re_search True (map Lit ''btc'')"] t1 t2 c1 c2 c3 sel
  have counts: "get_comparative reject_all ?T ''media'' ''sport'' =
      Inr (PDict
        [(''category1'', PInt (int (length (filter (\<lambda>a. case link a of None \<Rightarrow> False
             | Some l \<Rightarrow> re_search False (map Lit ''media'') l) ?T)))),
         (''category2'', PInt (int (length (filter (\<lambda>a. case link a of None \<Rightarrow> False
             | Some l \<Rightarrow> re_search False (map Lit ''sport'') l) ?T))))])"
    and rows: "get_by_coin reject_all ?T ''btc'' =
      Inr (PList (map title_link (filter (\<lambda>a. case content a of None \<Rightarrow> False
        | Some c \<Rightarrow> re_search True (map Lit ''btc'') c) ?T)))"
    by blast+
  have "get_by_coin reject_all ?T ''btc''
      = Inr (PList [PDict [(''title'', PStr ''b''), (''link'', PStr ''media'')]])"
    unfolding rows hit by (simp add: title_link_def cell_value_def)
  moreover have "get_comparative reject_all ?T ''media'' ''sport''
      = Inr (PDict [(''category1'', PInt 1), (''category2'', PInt 0)])"
    unfolding counts by simp
  ultimately show ?thesis
    using t1 t2 c1 c2 c3 by simp
qed

text \<open>
  Claim C10 as stated, for every article table with missing links or contents, fails.
  When the link is missing in every row of a non-empty table, the comparative endpoint
  raises \<^verbatim>\<open>AttributeError\<close> instead of counting nothing; the by-coin endpoint does the
  same when the content is missing in every row. And a row that mentions the coin is
  selected by the by-coin endpoint also when its link is missing, where the NaN makes the
  JSON response fail.
\<close>

theorem missing_cells_counterexample:
  "get_comparative reject_all
     [\<lparr>title = Some ''a'', link = None, content = Some ''btc''\<rparr>,
      \<lparr>title = Some ''b'', link = None, content = Some ''eth''\<rparr>] ''media'' ''sport''
   = Inl AttributeError
   \<and> get_by_coin reject_all
     [\<lparr>title = Some ''a'', link = Some ''media'', content = None\<rparr>] ''btc''
   = Inl AttributeError
   \<and> get_by_coin reject_all
     [\<lparr>title = Some ''a'', link = None, content = Some ''btc''\<rparr>,
      \<lparr>title = Some ''b'', link = Some ''media'', content = None\<rparr>] ''btc''
   = Inl ValueError"
  by (simp add: get_comparative_def get_by_coin_def str_contains_def str_accessor_def
      re_compile_def parse_atom_def re_special_def boolean_index_def JSONResponse_def
      title_link_def cell_value_def lower_char_def)

end
